theory Spec2Isabelle
  imports Complex_Main "HOL-Library.Word"
begin

section \<open>Numbers of the host language\<close>

text \<open>
  The visualizer computes with JavaScript numbers. The spectrum features are quotients
  whose denominator can be zero, so the model keeps the three special values a quotient
  can produce beside the finite ones. A finite value carries its exact real value:
  rounding to 64-bit floats is not modelled, and every zero is the positive zero (the
  program never produces a negative one before dividing).
\<close>

datatype jsnum = NaN | NInf | Fin real | PInf

fun jsneg :: "jsnum \<Rightarrow> jsnum" where
  "jsneg NaN = NaN"
| "jsneg NInf = PInf"
| "jsneg (Fin a) = Fin (- a)"
| "jsneg PInf = NInf"

fun jsadd :: "jsnum \<Rightarrow> jsnum \<Rightarrow> jsnum" where
  "jsadd (Fin a) (Fin b) = Fin (a + b)"
| "jsadd NaN _ = NaN"
| "jsadd _ NaN = NaN"
| "jsadd PInf NInf = NaN"
| "jsadd NInf PInf = NaN"
| "jsadd PInf _ = PInf"
| "jsadd _ PInf = PInf"
| "jsadd NInf _ = NInf"
| "jsadd _ NInf = NInf"

definition jssub :: "jsnum \<Rightarrow> jsnum \<Rightarrow> jsnum" where
  "jssub a b = jsadd a (jsneg b)"

fun jsmul :: "jsnum \<Rightarrow> jsnum \<Rightarrow> jsnum" where
  "jsmul (Fin a) (Fin b) = Fin (a * b)"
| "jsmul NaN _ = NaN"
| "jsmul _ NaN = NaN"
| "jsmul PInf (Fin b) = (if b = 0 then NaN else if 0 < b then PInf else NInf)"
| "jsmul NInf (Fin b) = (if b = 0 then NaN else if 0 < b then NInf else PInf)"
| "jsmul (Fin a) PInf = (if a = 0 then NaN else if 0 < a then PInf else NInf)"
| "jsmul (Fin a) NInf = (if a = 0 then NaN else if 0 < a then NInf else PInf)"
| "jsmul PInf PInf = PInf"
| "jsmul PInf NInf = NInf"
| "jsmul NInf PInf = NInf"
| "jsmul NInf NInf = PInf"

fun jsdiv :: "jsnum \<Rightarrow> jsnum \<Rightarrow> jsnum" where
  "jsdiv (Fin a) (Fin b) =
     (if b = 0 then (if a = 0 then NaN else if 0 < a then PInf else NInf)
      else Fin (a / b))"
| "jsdiv NaN _ = NaN"
| "jsdiv _ NaN = NaN"
| "jsdiv (Fin a) PInf = Fin 0"
| "jsdiv (Fin a) NInf = Fin 0"
| "jsdiv PInf (Fin b) = (if 0 \<le> b then PInf else NInf)"
| "jsdiv NInf (Fin b) = (if 0 \<le> b then NInf else PInf)"
| "jsdiv PInf PInf = NaN"
| "jsdiv PInf NInf = NaN"
| "jsdiv NInf PInf = NaN"
| "jsdiv NInf NInf = NaN"

text \<open>\<open>a < b\<close> of the host language; \<open>a > b\<close> is \<open>jsless b a\<close>. Every comparison
  with \<open>NaN\<close> is false.\<close>

fun jsless :: "jsnum \<Rightarrow> jsnum \<Rightarrow> bool" where
  "jsless (Fin a) (Fin b) = (a < b)"
| "jsless NaN _ = False"
| "jsless _ NaN = False"
| "jsless NInf NInf = False"
| "jsless NInf _ = True"
| "jsless PInf _ = False"
| "jsless _ PInf = True"
| "jsless _ NInf = False"

section \<open>Game engine constants\<close>

definition CANVAS_WIDTH :: real where "CANVAS_WIDTH = 480"
definition CANVAS_HEIGHT :: real where "CANVAS_HEIGHT = 270"
definition GRAVITY :: real where "GRAVITY = 6 / 10"
definition JUMP_FORCE :: real where "JUMP_FORCE = - 10"
definition GROUND_HEIGHT :: real where "GROUND_HEIGHT = 40"
definition SPAWN_X :: real where "SPAWN_X = CANVAS_WIDTH + 50"

section \<open>Entities and the game state\<close>

datatype EntityType = obstacle | coin

text \<open>
  The fields of the interface \<open>Entity\<close>, prefixed with \<open>ent_\<close> (the source's names
  \<open>id\<close>, \<open>x\<close>, \<open>y\<close>, \<open>w\<close>, \<open>h\<close> would hide the identity function and the usual variable
  names). \<open>collected\<close> is an optional field: \<open>None\<close> is the absent field, which the
  source's tests \<open>!ent.collected\<close> and \<open>... || ent.collected\<close> read as false.
  Only \<open>x\<close> is ever combined with the scroll speed, so only \<open>x\<close> can leave the finite
  numbers; \<open>y\<close>, \<open>w\<close> and \<open>h\<close> are written once, from constants.
\<close>

record Entity =
  ent_id :: int
  ent_x :: jsnum
  ent_y :: real
  ent_w :: real
  ent_h :: real
  ent_type :: EntityType
  ent_color :: string
  ent_collected :: "bool option"

definition truthy :: "bool option \<Rightarrow> bool" where
  "truthy c = (c = Some True)"

text \<open>
  The object behind \<open>gameState.current\<close>. The player's kinematics and \<open>groundY\<close> are
  only ever assigned constants and sums of them, so they are finite; \<open>scrollSpeed\<close>
  is computed from the spectrum and is a \<open>jsnum\<close>.
\<close>

record GameState =
  playerY :: real
  playerVelY :: real
  isJumping :: bool
  groundY :: real
  scrollSpeed :: jsnum
  distance :: int
  entities :: "Entity list"
  nextId :: int
  bassCooldown :: int
  trebleCooldown :: int
  score :: int
  gameOver :: bool
  gameTime :: int

definition initialState :: GameState where
  "initialState =
     \<lparr> playerY = CANVAS_HEIGHT - GROUND_HEIGHT,
       playerVelY = 0,
       isJumping = False,
       groundY = CANVAS_HEIGHT - GROUND_HEIGHT,
       scrollSpeed = Fin 4,
       distance = 0,
       entities = [],
       nextId = 0,
       bassCooldown = 0,
       trebleCooldown = 0,
       score = 0,
       gameOver = False,
       gameTime = 0 \<rparr>"

section \<open>Input handling and the reset effect\<close>

text \<open>\<open>handleInput\<close>: the listener for key, touch and mouse events. The second branch
  (the forgiveness jump) has an empty body in the source.\<close>

definition handleInput :: "bool \<Rightarrow> GameState \<Rightarrow> GameState" where
  "handleInput isPlaying state =
     (if \<not> isPlaying \<or> gameOver state then state
      else if \<not> isJumping state
           then state\<lparr>playerVelY := JUMP_FORCE, isJumping := True\<rparr>
      else if playerY state > groundY state - 50 then state
      else state)"

text \<open>The effect that runs when \<open>isPlaying\<close> changes. The second component lists the
  calls of \<open>onScoreUpdate\<close>, in order.\<close>

definition resetEffect :: "bool \<Rightarrow> GameState \<Rightarrow> GameState \<times> int list" where
  "resetEffect isPlaying state =
     (if \<not> isPlaying then (state, [])
      else if gameOver state \<or> gameTime state = 0
           then (state\<lparr>playerY := CANVAS_HEIGHT - GROUND_HEIGHT,
                        playerVelY := 0,
                        isJumping := False,
                        entities := [],
                        score := 0,
                        gameOver := False,
                        gameTime := 0\<rparr>, [0])
      else (state, []))"

section \<open>The frame update\<close>

subsection \<open>Audio analysis\<close>

text \<open>
  \<open>for (let i = lo; i < hi; i++) acc += dataArray[i]\<close>. A read beyond the array gives
  \<open>undefined\<close>, which the addition turns into \<open>NaN\<close>.
\<close>

function sumBins :: "8 word list \<Rightarrow> nat \<Rightarrow> nat \<Rightarrow> jsnum \<Rightarrow> jsnum" where
  "sumBins dataArray i hi acc =
     (if i < hi
      then sumBins dataArray (Suc i) hi
             (jsadd acc (if i < length dataArray then Fin (real (unat (dataArray ! i))) else NaN))
      else acc)"
  by pat_completeness auto
termination
  by (relation "measure (\<lambda>(d, i, hi, acc). hi - i)") auto

declare sumBins.simps [simp del]

text \<open>
  The three features of one snapshot; \<open>bufferLength\<close> is the length of the array that
  \<open>getByteFrequencyData\<close> has filled. \<open>Math.floor\<close> of the products is taken on the
  exact values.
\<close>

definition sampleSpectrum :: "8 word list \<Rightarrow> jsnum \<times> jsnum \<times> jsnum" where
  "sampleSpectrum dataArray =
     (let bufferLength = length dataArray;
          bassEnd = nat \<lfloor>real bufferLength * (15 / 100)\<rfloor>;
          bassSum = sumBins dataArray 0 bassEnd (Fin 0);
          bass = jsdiv bassSum (Fin (real bassEnd));
          trebleStart = nat \<lfloor>real bufferLength * (7 / 10)\<rfloor>;
          trebleSum = sumBins dataArray trebleStart bufferLength (Fin 0);
          treble = jsdiv trebleSum (Fin (real bufferLength - real trebleStart));
          total = sumBins dataArray 0 bufferLength (Fin 0);
          volume = jsdiv (jsdiv total (Fin (real bufferLength))) (Fin 255)
      in (bass, treble, volume))"

text \<open>
  Step 1 of \<open>update\<close>. The analyser is \<open>None\<close> when the prop is null, and otherwise
  the snapshot it writes into \<open>dataArray\<close> this frame.
\<close>

definition audioAnalysis ::
  "bool \<Rightarrow> 8 word list option \<Rightarrow> GameState \<Rightarrow> (jsnum \<times> jsnum \<times> jsnum) \<times> GameState" where
  "audioAnalysis isPlaying analyser state =
     (case analyser of
        None \<Rightarrow> ((Fin 0, Fin 0, Fin 0), state)
      | Some dataArray \<Rightarrow>
          if isPlaying \<and> \<not> gameOver state
          then (let (bass, treble, volume) = sampleSpectrum dataArray
                in ((bass, treble, volume),
                    state\<lparr>scrollSpeed := jsadd (Fin 3) (jsmul volume (Fin 4))\<rparr>))
          else ((Fin 0, Fin 0, Fin 0), state))"

subsection \<open>Physics and spawning\<close>

definition physics :: "GameState \<Rightarrow> GameState" where
  "physics state =
     (let s1 = state\<lparr>playerVelY := playerVelY state + GRAVITY\<rparr>;
          s2 = s1\<lparr>playerY := playerY s1 + playerVelY s1\<rparr>
      in if playerY s2 \<ge> groundY s2
         then s2\<lparr>playerY := groundY s2, playerVelY := 0, isJumping := False\<rparr>
         else s2)"

definition cooldowns :: "GameState \<Rightarrow> GameState" where
  "cooldowns state =
     (let s1 = (if bassCooldown state > 0
                then state\<lparr>bassCooldown := bassCooldown state - 1\<rparr> else state)
      in if trebleCooldown s1 > 0
         then s1\<lparr>trebleCooldown := trebleCooldown s1 - 1\<rparr> else s1)"

definition newObstacle :: "GameState \<Rightarrow> Entity" where
  "newObstacle state =
     \<lparr> ent_id = nextId state,
       ent_x = Fin SPAWN_X,
       ent_y = groundY state - 30,
       ent_w = 24,
       ent_h = 30,
       ent_type = obstacle,
       ent_color = ''#ff4081'',
       ent_collected = None \<rparr>"

definition obstacleDue :: "jsnum \<Rightarrow> GameState \<Rightarrow> bool" where
  "obstacleDue bass state = (jsless (Fin 155) bass \<and> bassCooldown state = 0)"

definition spawnObstacle :: "jsnum \<Rightarrow> GameState \<Rightarrow> GameState" where
  "spawnObstacle bass state =
     (if obstacleDue bass state
      then state\<lparr>entities := entities state @ [newObstacle state],
                 nextId := nextId state + 1,
                 bassCooldown := 25\<rparr>
      else state)"

text \<open>\<open>rnd\<close> is the value \<open>Math.random()\<close> returns when the coin is made.\<close>

definition newCoin :: "real \<Rightarrow> GameState \<Rightarrow> Entity" where
  "newCoin rnd state =
     (let height = (if rnd > 5 / 10 then 80 else 140)
      in \<lparr> ent_id = nextId state,
           ent_x = Fin SPAWN_X,
           ent_y = groundY state - height,
           ent_w = 20,
           ent_h = 20,
           ent_type = coin,
           ent_color = ''#ffff00'',
           ent_collected = None \<rparr>)"

definition coinDue :: "jsnum \<Rightarrow> GameState \<Rightarrow> bool" where
  "coinDue treble state = (jsless (Fin 100) treble \<and> trebleCooldown state = 0)"

definition spawnCoin :: "jsnum \<Rightarrow> real \<Rightarrow> GameState \<Rightarrow> GameState" where
  "spawnCoin treble rnd state =
     (if coinDue treble state
      then state\<lparr>entities := entities state @ [newCoin rnd state],
                 nextId := nextId state + 1,
                 trebleCooldown := 15\<rparr>
      else state)"

text \<open>The state of an active frame at the comment \<open>Spawn Obstacle on Bass Beat\<close>: the
  clock has ticked, gravity and the ground are applied, the cooldowns are counted down.\<close>

definition beforeSpawn :: "GameState \<Rightarrow> GameState" where
  "beforeSpawn state = cooldowns (physics (state\<lparr>gameTime := gameTime state + 1\<rparr>))"

text \<open>The state at the comment \<open>Update Entities\<close>: both spawn rules have run.\<close>

definition beforeEntities :: "jsnum \<Rightarrow> jsnum \<Rightarrow> real \<Rightarrow> GameState \<Rightarrow> GameState" where
  "beforeEntities bass treble rnd state =
     spawnCoin treble rnd (spawnObstacle bass (beforeSpawn state))"

subsection \<open>The entity loop\<close>

text \<open>The AABB test of the loop body, on the entity as it is after \<open>ent.x -= scrollSpeed\<close>.\<close>

definition overlaps :: "real \<Rightarrow> Entity \<Rightarrow> bool" where
  "overlaps pY ent =
     (let playerW = 30;
          playerH = 40;
          playerX = CANVAS_WIDTH / 4 - playerW / 2;
          playerY_Top = pY - playerH
      in \<not> truthy (ent_collected ent) \<and>
         jsless (Fin playerX) (jsadd (ent_x ent) (Fin (ent_w ent))) \<and>
         jsless (ent_x ent) (Fin (playerX + playerW)) \<and>
         playerY_Top < ent_y ent + ent_h ent \<and>
         playerY_Top + playerH > ent_y ent)"

text \<open>
  One pass through the loop body at index \<open>i\<close>. The state carries the calls of
  \<open>onScoreUpdate\<close> made so far. \<open>None\<close> is the TypeError of reading \<open>x\<close> of
  \<open>undefined\<close>, which an index beyond the array would raise. The writes to \<open>ent\<close> are
  writes to the object the array holds at \<open>i\<close>.
\<close>

definition entityStep :: "nat \<Rightarrow> GameState \<times> int list \<Rightarrow> (GameState \<times> int list) option" where
  "entityStep i st =
     (let (state, out) = st in
      if i < length (entities state) then
        (let ent = entities state ! i;
             ent1 = ent\<lparr>ent_x := jssub (ent_x ent) (scrollSpeed state)\<rparr>;
             (ent2, state2, out2) =
               (if overlaps (playerY state) ent1 then
                  (if ent_type ent1 = coin
                   then (ent1\<lparr>ent_collected := Some True\<rparr>,
                         state\<lparr>score := score state + 50\<rparr>,
                         out @ [score state + 50])
                   else if ent_type ent1 = obstacle
                   then (ent1, state\<lparr>gameOver := True\<rparr>, out)
                   else (ent1, state, out))
                else (ent1, state, out));
             es2 = (entities state)[i := ent2]
         in if jsless (ent_x ent2) (Fin (- 50)) \<or> truthy (ent_collected ent2)
            then Some (state2\<lparr>entities := take i es2 @ drop (Suc i) es2\<rparr>, out2)
            else Some (state2\<lparr>entities := es2\<rparr>, out2))
      else None)"

text \<open>
  \<open>entityLoopDown lo k\<close> runs the body at the indices \<open>lo + k - 1\<close> down to \<open>lo\<close>;
  the source's loop \<open>for (let i = length - 1; i >= 0; i--)\<close> is \<open>entityLoop\<close>.
\<close>

fun entityLoopDown :: "nat \<Rightarrow> nat \<Rightarrow> GameState \<times> int list \<Rightarrow> (GameState \<times> int list) option" where
  "entityLoopDown lo 0 st = Some st"
| "entityLoopDown lo (Suc k) st =
     (case entityStep (lo + k) st of
        None \<Rightarrow> None
      | Some st' \<Rightarrow> entityLoopDown lo k st')"

definition entityLoop :: "GameState \<times> int list \<Rightarrow> (GameState \<times> int list) option" where
  "entityLoop st = entityLoopDown 0 (length (entities (fst st))) st"

subsection \<open>Passive score and the whole frame\<close>

definition passiveScore :: "GameState \<times> int list \<Rightarrow> GameState \<times> int list" where
  "passiveScore st =
     (let (state, out) = st in
      if gameTime state mod 10 = 0
      then (state\<lparr>score := score state + 1\<rparr>, out @ [score state + 1])
      else (state, out))"

text \<open>
  \<open>update\<close> without its drawing part, which reads the state and writes only to the
  canvas. The result is the new state and the calls of \<open>onScoreUpdate\<close> of this frame.
\<close>

definition update ::
  "bool \<Rightarrow> 8 word list option \<Rightarrow> real \<Rightarrow> GameState \<Rightarrow> (GameState \<times> int list) option" where
  "update isPlaying analyser rnd state =
     (let ((bass, treble, volume), s1) = audioAnalysis isPlaying analyser state
      in if isPlaying \<and> \<not> gameOver s1
         then (case entityLoop (beforeEntities bass treble rnd s1, []) of
                 None \<Rightarrow> None
               | Some st \<Rightarrow> Some (passiveScore st))
         else Some (s1, []))"

section \<open>Executions\<close>

text \<open>
  What can happen to the state: an animation frame, a jump intent, or a run of the reset
  effect. Each carries the value of the prop \<open>isPlaying\<close> at that moment; a frame also
  carries the analyser's snapshot and the random number a coin would use.
\<close>

datatype event =
  Frame bool "8 word list option" real
| JumpIntent bool
| PlayEffect bool

fun isFrame :: "event \<Rightarrow> bool" where
  "isFrame (Frame _ _ _) = True"
| "isFrame _ = False"

fun step :: "event \<Rightarrow> GameState \<Rightarrow> GameState option" where
  "step (Frame isPlaying analyser rnd) state = map_option fst (update isPlaying analyser rnd state)"
| "step (JumpIntent isPlaying) state = Some (handleInput isPlaying state)"
| "step (PlayEffect isPlaying) state = Some (fst (resetEffect isPlaying state))"

fun run :: "event list \<Rightarrow> GameState \<Rightarrow> GameState option" where
  "run [] state = Some state"
| "run (e # es) state = (case step e state of None \<Rightarrow> None | Some state' \<Rightarrow> run es state')"

text \<open>Whether a frame takes the branch that pushes an obstacle, or the one that pushes
  a coin: the conditions of the two spawn statements, at the states they are tested in.\<close>

definition spawnsObstacle :: "bool \<Rightarrow> 8 word list option \<Rightarrow> GameState \<Rightarrow> bool" where
  "spawnsObstacle isPlaying analyser state =
     (let ((bass, treble, volume), s1) = audioAnalysis isPlaying analyser state
      in isPlaying \<and> \<not> gameOver s1 \<and> obstacleDue bass (beforeSpawn s1))"

definition spawnsCoin :: "bool \<Rightarrow> 8 word list option \<Rightarrow> GameState \<Rightarrow> bool" where
  "spawnsCoin isPlaying analyser state =
     (let ((bass, treble, volume), s1) = audioAnalysis isPlaying analyser state
      in isPlaying \<and> \<not> gameOver s1 \<and> coinDue treble (spawnObstacle bass (beforeSpawn s1)))"

section \<open>The entity pass as the specification words it\<close>

text \<open>
  The specification describes the entity pass in three phases over the whole list:
  every entity is advanced by the scroll speed; then the collision test runs over the
  advanced, unpruned list (a coin hit marks the coin, adds 50 and notifies; an obstacle
  hit sets the game-over flag); then every entity with \<open>x < -50\<close> or \<open>collected\<close> is
  removed. These definitions follow those words, not the source.
\<close>

definition spec_advance :: "jsnum \<Rightarrow> Entity list \<Rightarrow> Entity list" where
  "spec_advance speed es = map (\<lambda>e. e\<lparr>ent_x := jssub (ent_x e) speed\<rparr>) es"

fun spec_collide ::
  "real \<Rightarrow> Entity list \<Rightarrow> int \<times> bool \<times> int list \<Rightarrow> Entity list \<times> int \<times> bool \<times> int list" where
  "spec_collide pY [] acc = ([], acc)"
| "spec_collide pY (e # es) (sc, over, out) =
     (if overlaps pY e \<and> ent_type e = coin then
        (let (es', acc') = spec_collide pY es (sc + 50, over, out @ [sc + 50])
         in (e\<lparr>ent_collected := Some True\<rparr> # es', acc'))
      else if overlaps pY e \<and> ent_type e = obstacle then
        (let (es', acc') = spec_collide pY es (sc, True, out) in (e # es', acc'))
      else
        (let (es', acc') = spec_collide pY es (sc, over, out) in (e # es', acc')))"

definition spec_prune :: "Entity list \<Rightarrow> Entity list" where
  "spec_prune es = filter (\<lambda>e. \<not> (jsless (ent_x e) (Fin (- 50)) \<or> truthy (ent_collected e))) es"

definition spec_entityPass :: "GameState \<times> int list \<Rightarrow> GameState \<times> int list" where
  "spec_entityPass st =
     (let (state, out) = st;
          advanced = spec_advance (scrollSpeed state) (entities state);
          (collided, sc, over, out') =
             spec_collide (playerY state) advanced (score state, gameOver state, out)
      in (state\<lparr>entities := spec_prune collided, score := sc, gameOver := over\<rparr>, out'))"

section \<open>What one pass of the entity loop does to the list\<close>

text \<open>
  Auxiliary functions that describe the effect of the loop on a segment of the array:
  what the body writes to one entity, which entities it splices out, how many coins it
  collects and whether it meets an obstacle. The notifications of \<open>c\<close> collected coins
  are the running scores.
\<close>

definition advance :: "jsnum \<Rightarrow> Entity \<Rightarrow> Entity" where
  "advance speed e = e\<lparr>ent_x := jssub (ent_x e) speed\<rparr>"

definition coinHit :: "jsnum \<Rightarrow> real \<Rightarrow> Entity \<Rightarrow> bool" where
  "coinHit speed pY e = (overlaps pY (advance speed e) \<and> ent_type e = coin)"

definition obstacleHit :: "jsnum \<Rightarrow> real \<Rightarrow> Entity \<Rightarrow> bool" where
  "obstacleHit speed pY e = (overlaps pY (advance speed e) \<and> ent_type e = obstacle)"

definition touch :: "jsnum \<Rightarrow> real \<Rightarrow> Entity \<Rightarrow> Entity" where
  "touch speed pY e =
     (if coinHit speed pY e then (advance speed e)\<lparr>ent_collected := Some True\<rparr>
      else advance speed e)"

definition gone :: "Entity \<Rightarrow> bool" where
  "gone e = (jsless (ent_x e) (Fin (- 50)) \<or> truthy (ent_collected e))"

definition survivors :: "jsnum \<Rightarrow> real \<Rightarrow> Entity list \<Rightarrow> Entity list" where
  "survivors speed pY es = filter (\<lambda>e. \<not> gone e) (map (touch speed pY) es)"

definition coinCount :: "jsnum \<Rightarrow> real \<Rightarrow> Entity list \<Rightarrow> nat" where
  "coinCount speed pY es = length (filter (coinHit speed pY) es)"

definition anyObstacleHit :: "jsnum \<Rightarrow> real \<Rightarrow> Entity list \<Rightarrow> bool" where
  "anyObstacleHit speed pY es = (filter (obstacleHit speed pY) es \<noteq> [])"

fun coinNotes :: "int \<Rightarrow> nat \<Rightarrow> int list" where
  "coinNotes sc 0 = []"
| "coinNotes sc (Suc c) = (sc + 50) # coinNotes (sc + 50) c"

text \<open>The state and the notifications the whole loop leaves behind.\<close>

definition loopResult :: "GameState \<times> int list \<Rightarrow> GameState \<times> int list" where
  "loopResult st =
     (let (s, out) = st; v = scrollSpeed s; p = playerY s
      in (s\<lparr>entities := survivors v p (entities s),
            score := score s + 50 * int (coinCount v p (entities s)),
            gameOver := gameOver s \<or> anyObstacleHit v p (entities s)\<rparr>,
          out @ coinNotes (score s) (coinCount v p (entities s))))"

section \<open>Concrete states used as examples\<close>

text \<open>A state of the shape a lost game leaves behind: the fourth entity, an obstacle,
  has reached the player on the ground.\<close>

definition crashedState :: GameState where
  "crashedState =
     \<lparr> playerY = 230, playerVelY = 0, isJumping = False, groundY = 230,
       scrollSpeed = Fin 5, distance = 0,
       entities = [\<lparr> ent_id = 3, ent_x = Fin 130, ent_y = 200, ent_w = 24, ent_h = 30,
                     ent_type = obstacle, ent_color = ''#ff4081'', ent_collected = None \<rparr>],
       nextId = 4, bassCooldown = 7, trebleCooldown = 2,
       score = 158, gameOver = True, gameTime = 83 \<rparr>"

text \<open>The state after a jump intent, three frames before the next obstacle may spawn
  and one frame before a passive point.\<close>

definition jumpingState :: GameState where
  "jumpingState = handleInput True (initialState\<lparr>bassCooldown := 3, gameTime := 9\<rparr>)"

text \<open>A snapshot of ten bins with a loud lowest bin and loud highest bins: bass and
  treble are 255 and the volume is one half.\<close>

definition loudData :: "8 word list" where
  "loudData = [255, 0, 0, 255, 0, 0, 0, 255, 255, 255]"

text \<open>The states after one and after two frames with that snapshot from the initial
  state, the second followed by a jump intent.\<close>

definition afterLoud :: GameState where
  "afterLoud =
     \<lparr> playerY = 230, playerVelY = 0, isJumping = False, groundY = 230,
       scrollSpeed = Fin 5, distance = 0,
       entities =
         [\<lparr> ent_id = 0, ent_x = Fin 525, ent_y = 200, ent_w = 24, ent_h = 30,
             ent_type = obstacle, ent_color = ''#ff4081'', ent_collected = None \<rparr>,
          \<lparr> ent_id = 1, ent_x = Fin 525, ent_y = 150, ent_w = 20, ent_h = 20,
             ent_type = coin, ent_color = ''#ffff00'', ent_collected = None \<rparr>],
       nextId = 2, bassCooldown = 25, trebleCooldown = 15,
       score = 0, gameOver = False, gameTime = 1 \<rparr>"

definition afterLoudTwice :: GameState where
  "afterLoudTwice =
     \<lparr> playerY = 230, playerVelY = - 10, isJumping = True, groundY = 230,
       scrollSpeed = Fin 5, distance = 0,
       entities =
         [\<lparr> ent_id = 0, ent_x = Fin 520, ent_y = 200, ent_w = 24, ent_h = 30,
             ent_type = obstacle, ent_color = ''#ff4081'', ent_collected = None \<rparr>,
          \<lparr> ent_id = 1, ent_x = Fin 520, ent_y = 150, ent_w = 20, ent_h = 20,
             ent_type = coin, ent_color = ''#ffff00'', ent_collected = None \<rparr>],
       nextId = 2, bassCooldown = 24, trebleCooldown = 14,
       score = 0, gameOver = False, gameTime = 2 \<rparr>"

text \<open>A state in mid-air in which, after one more frame, the player overlaps both a
  low coin (index 0) and an obstacle (index 1).\<close>

definition doubleHitCoin :: Entity where
  "doubleHitCoin =
     \<lparr> ent_id = 4, ent_x = Fin 125, ent_y = 150, ent_w = 20, ent_h = 20,
       ent_type = coin, ent_color = ''#ffff00'', ent_collected = None \<rparr>"

definition doubleHitObstacle :: Entity where
  "doubleHitObstacle =
     \<lparr> ent_id = 5, ent_x = Fin 130, ent_y = 200, ent_w = 24, ent_h = 30,
       ent_type = obstacle, ent_color = ''#ff4081'', ent_collected = None \<rparr>"

definition doubleHitState :: GameState where
  "doubleHitState =
     \<lparr> playerY = 1022 / 5, playerVelY = 2 / 5, isJumping = True, groundY = 230,
       scrollSpeed = Fin 5, distance = 0,
       entities = [doubleHitCoin, doubleHitObstacle],
       nextId = 6, bassCooldown = 0, trebleCooldown = 0,
       score = 120, gameOver = False, gameTime = 41 \<rparr>"

section \<open>Entity ids\<close>

text \<open>The ids in the list are pairwise different and all below the counter.\<close>

definition idsOk :: "GameState \<Rightarrow> bool" where
  "idsOk s = (distinct (map ent_id (entities s)) \<and>
              list_all (\<lambda>e. ent_id e < nextId s) (entities s))"

section \<open>The entity loop in closed form\<close>

lemmas consts_defs =
  CANVAS_WIDTH_def CANVAS_HEIGHT_def GRAVITY_def JUMP_FORCE_def GROUND_HEIGHT_def SPAWN_X_def

text \<open>The body at index \<open>length pre\<close> touches only the entity stored there.\<close>

lemma entityStep_at:
  assumes "entities s = pre @ e # post"
  shows "entityStep (length pre) (s, out) =
     Some (s\<lparr>entities := pre @ survivors (scrollSpeed s) (playerY s) [e] @ post,
             score := score s + 50 * int (coinCount (scrollSpeed s) (playerY s) [e]),
             gameOver := gameOver s \<or> anyObstacleHit (scrollSpeed s) (playerY s) [e]\<rparr>,
           out @ coinNotes (score s) (coinCount (scrollSpeed s) (playerY s) [e]))"
  using assms
  by (cases "ent_type e")
     (simp_all add: entityStep_def Let_def survivors_def coinCount_def anyObstacleHit_def
        coinHit_def obstacleHit_def touch_def gone_def advance_def truthy_def)

lemma coinNotes_add:
  "coinNotes sc (a + b) = coinNotes sc a @ coinNotes (sc + 50 * int a) b"
  by (induction a arbitrary: sc) (simp_all add: algebra_simps)

lemma survivors_append:
  "survivors speed pY (xs @ ys) = survivors speed pY xs @ survivors speed pY ys"
  by (simp add: survivors_def)

lemma coinCount_append:
  "coinCount speed pY (xs @ ys) = coinCount speed pY ys + coinCount speed pY xs"
  by (simp add: coinCount_def)

lemma anyObstacleHit_append:
  "anyObstacleHit speed pY (xs @ ys) = (anyObstacleHit speed pY ys \<or> anyObstacleHit speed pY xs)"
  by (auto simp: anyObstacleHit_def)

lemma entityLoopDown_closed:
  "entities s = pre @ mid @ post \<Longrightarrow>
   entityLoopDown (length pre) (length mid) (s, out) =
     Some (s\<lparr>entities := pre @ survivors (scrollSpeed s) (playerY s) mid @ post,
             score := score s + 50 * int (coinCount (scrollSpeed s) (playerY s) mid),
             gameOver := gameOver s \<or> anyObstacleHit (scrollSpeed s) (playerY s) mid\<rparr>,
           out @ coinNotes (score s) (coinCount (scrollSpeed s) (playerY s) mid))"
proof (induction mid arbitrary: s post out rule: rev_induct)
  case Nil
  then show ?case by (simp add: survivors_def coinCount_def anyObstacleHit_def)
next
  case (snoc e mid)
  let ?v = "scrollSpeed s" and ?p = "playerY s"
  let ?s1 = "s\<lparr>entities := (pre @ mid) @ survivors ?v ?p [e] @ post,
                 score := score s + 50 * int (coinCount ?v ?p [e]),
                 gameOver := gameOver s \<or> anyObstacleHit ?v ?p [e]\<rparr>"
  let ?out1 = "out @ coinNotes (score s) (coinCount ?v ?p [e])"
  from snoc.prems have ents: "entities s = (pre @ mid) @ e # post" by simp
  have first: "entityStep (length pre + length mid) (s, out) = Some (?s1, ?out1)"
    using entityStep_at [OF ents, of out] by simp
  have "entities ?s1 = pre @ mid @ (survivors ?v ?p [e] @ post)" by simp
  from snoc.IH [OF this, of ?out1]
  have rest: "entityLoopDown (length pre) (length mid) (?s1, ?out1) =
     Some (?s1\<lparr>entities := pre @ survivors ?v ?p mid @ survivors ?v ?p [e] @ post,
               score := score ?s1 + 50 * int (coinCount ?v ?p mid),
               gameOver := gameOver ?s1 \<or> anyObstacleHit ?v ?p mid\<rparr>,
           ?out1 @ coinNotes (score ?s1) (coinCount ?v ?p mid))"
    by simp
  have "entityLoopDown (length pre) (length (mid @ [e])) (s, out) =
        entityLoopDown (length pre) (length mid) (?s1, ?out1)"
    by (simp add: first)
  also note rest
  finally show ?case
    by (simp add: survivors_append coinCount_append anyObstacleHit_append
        coinNotes_add distrib_left)
qed

lemma spec_collide_closed:
  "spec_collide pY es (sc, over, out) =
     (map (\<lambda>e. if overlaps pY e \<and> ent_type e = coin then e\<lparr>ent_collected := Some True\<rparr> else e) es,
      sc + 50 * int (length (filter (\<lambda>e. overlaps pY e \<and> ent_type e = coin) es)),
      over \<or> filter (\<lambda>e. overlaps pY e \<and> ent_type e = obstacle) es \<noteq> [],
      out @ coinNotes sc (length (filter (\<lambda>e. overlaps pY e \<and> ent_type e = coin) es)))"
  by (induction es arbitrary: sc over out) (auto simp: algebra_simps)

lemma spec_mark_advance:
  "map (\<lambda>e. if overlaps pY e \<and> ent_type e = coin then e\<lparr>ent_collected := Some True\<rparr> else e)
       (spec_advance speed es) = map (touch speed pY) es"
  by (induction es) (simp_all add: spec_advance_def touch_def coinHit_def advance_def)

lemma spec_coins_advance:
  "length (filter (\<lambda>e. overlaps pY e \<and> ent_type e = coin) (spec_advance speed es)) =
     coinCount speed pY es"
  by (induction es) (simp_all add: spec_advance_def coinCount_def coinHit_def advance_def)

lemma spec_obstacles_advance:
  "(filter (\<lambda>e. overlaps pY e \<and> ent_type e = obstacle) (spec_advance speed es) \<noteq> []) =
     anyObstacleHit speed pY es"
  by (induction es) (simp_all add: spec_advance_def anyObstacleHit_def obstacleHit_def advance_def)

lemma spec_prune_touch:
  "spec_prune (map (touch speed pY) es) = survivors speed pY es"
  by (induction es) (simp_all add: spec_prune_def survivors_def gone_def)

lemma spec_entityPass_closed:
  "spec_entityPass (s, out) =
     (s\<lparr>entities := survivors (scrollSpeed s) (playerY s) (entities s),
        score := score s + 50 * int (coinCount (scrollSpeed s) (playerY s) (entities s)),
        gameOver := gameOver s \<or> anyObstacleHit (scrollSpeed s) (playerY s) (entities s)\<rparr>,
      out @ coinNotes (score s) (coinCount (scrollSpeed s) (playerY s) (entities s)))"
  by (simp add: spec_entityPass_def spec_collide_closed spec_mark_advance spec_coins_advance
      spec_obstacles_advance spec_prune_touch)

lemma entityLoop_closed:
  "entityLoop (s, out) =
     Some (s\<lparr>entities := survivors (scrollSpeed s) (playerY s) (entities s),
        score := score s + 50 * int (coinCount (scrollSpeed s) (playerY s) (entities s)),
        gameOver := gameOver s \<or> anyObstacleHit (scrollSpeed s) (playerY s) (entities s)\<rparr>,
      out @ coinNotes (score s) (coinCount (scrollSpeed s) (playerY s) (entities s)))"
  using entityLoopDown_closed [of s "[]" "entities s" "[]" out]
  by (simp add: entityLoop_def)

lemma entityLoop_result: "entityLoop st = Some (loopResult st)"
  by (cases st) (simp add: entityLoop_closed loopResult_def Let_def)

section \<open>The frame in closed form\<close>

lemma update_inactive: "\<not> ip \<or> gameOver s \<Longrightarrow> update ip an rnd s = Some (s, [])"
  by (auto simp: update_def audioAnalysis_def split: option.splits)

lemma audioAnalysis_gameOver [simp]: "gameOver (snd (audioAnalysis ip an s)) = gameOver s"
  by (simp add: audioAnalysis_def split: option.splits prod.splits)

lemma update_active:
  assumes "\<not> gameOver s" and "audioAnalysis True an s = ((b, t, v), s1)"
  shows "update True an rnd s = Some (passiveScore (loopResult (beforeEntities b t rnd s1, [])))"
proof -
  have "gameOver s1 = gameOver s"
    using audioAnalysis_gameOver [of True an s] assms(2) by simp
  with assms show ?thesis
    by (simp add: update_def entityLoop_result)
qed

section \<open>What each stage of a frame leaves unchanged\<close>

lemma audioAnalysis_fields [simp]:
  "playerY (snd (audioAnalysis ip an s)) = playerY s"
  "playerVelY (snd (audioAnalysis ip an s)) = playerVelY s"
  "isJumping (snd (audioAnalysis ip an s)) = isJumping s"
  "groundY (snd (audioAnalysis ip an s)) = groundY s"
  "distance (snd (audioAnalysis ip an s)) = distance s"
  "entities (snd (audioAnalysis ip an s)) = entities s"
  "nextId (snd (audioAnalysis ip an s)) = nextId s"
  "bassCooldown (snd (audioAnalysis ip an s)) = bassCooldown s"
  "trebleCooldown (snd (audioAnalysis ip an s)) = trebleCooldown s"
  "score (snd (audioAnalysis ip an s)) = score s"
  "gameTime (snd (audioAnalysis ip an s)) = gameTime s"
  by (simp_all add: audioAnalysis_def split: option.splits prod.splits)

lemma audioAnalysis_None [simp]: "audioAnalysis ip None s = ((Fin 0, Fin 0, Fin 0), s)"
  by (simp add: audioAnalysis_def)

lemma physics_fields [simp]:
  "groundY (physics s) = groundY s"
  "scrollSpeed (physics s) = scrollSpeed s"
  "distance (physics s) = distance s"
  "entities (physics s) = entities s"
  "nextId (physics s) = nextId s"
  "bassCooldown (physics s) = bassCooldown s"
  "trebleCooldown (physics s) = trebleCooldown s"
  "score (physics s) = score s"
  "gameOver (physics s) = gameOver s"
  "gameTime (physics s) = gameTime s"
  by (simp_all add: physics_def Let_def)

lemma physics_gameTime_update [simp]: "physics (s\<lparr>gameTime := g\<rparr>) = (physics s)\<lparr>gameTime := g\<rparr>"
  by (simp add: physics_def Let_def)

lemma cooldowns_fields [simp]:
  "playerY (cooldowns s) = playerY s"
  "playerVelY (cooldowns s) = playerVelY s"
  "isJumping (cooldowns s) = isJumping s"
  "groundY (cooldowns s) = groundY s"
  "scrollSpeed (cooldowns s) = scrollSpeed s"
  "distance (cooldowns s) = distance s"
  "entities (cooldowns s) = entities s"
  "nextId (cooldowns s) = nextId s"
  "score (cooldowns s) = score s"
  "gameOver (cooldowns s) = gameOver s"
  "gameTime (cooldowns s) = gameTime s"
  "bassCooldown (cooldowns s) = (if bassCooldown s > 0 then bassCooldown s - 1 else bassCooldown s)"
  "trebleCooldown (cooldowns s) = (if trebleCooldown s > 0 then trebleCooldown s - 1 else trebleCooldown s)"
  by (simp_all add: cooldowns_def Let_def)

lemma beforeSpawn_fields [simp]:
  "playerY (beforeSpawn s) = playerY (physics s)"
  "playerVelY (beforeSpawn s) = playerVelY (physics s)"
  "isJumping (beforeSpawn s) = isJumping (physics s)"
  "groundY (beforeSpawn s) = groundY s"
  "scrollSpeed (beforeSpawn s) = scrollSpeed s"
  "distance (beforeSpawn s) = distance s"
  "entities (beforeSpawn s) = entities s"
  "nextId (beforeSpawn s) = nextId s"
  "score (beforeSpawn s) = score s"
  "gameOver (beforeSpawn s) = gameOver s"
  "gameTime (beforeSpawn s) = gameTime s + 1"
  "bassCooldown (beforeSpawn s) = (if bassCooldown s > 0 then bassCooldown s - 1 else bassCooldown s)"
  "trebleCooldown (beforeSpawn s) = (if trebleCooldown s > 0 then trebleCooldown s - 1 else trebleCooldown s)"
  by (simp_all add: beforeSpawn_def)

lemma spawnObstacle_fields [simp]:
  "playerY (spawnObstacle b s) = playerY s"
  "playerVelY (spawnObstacle b s) = playerVelY s"
  "isJumping (spawnObstacle b s) = isJumping s"
  "groundY (spawnObstacle b s) = groundY s"
  "scrollSpeed (spawnObstacle b s) = scrollSpeed s"
  "distance (spawnObstacle b s) = distance s"
  "trebleCooldown (spawnObstacle b s) = trebleCooldown s"
  "score (spawnObstacle b s) = score s"
  "gameOver (spawnObstacle b s) = gameOver s"
  "gameTime (spawnObstacle b s) = gameTime s"
  "bassCooldown (spawnObstacle b s) = (if obstacleDue b s then 25 else bassCooldown s)"
  "nextId (spawnObstacle b s) = (if obstacleDue b s then nextId s + 1 else nextId s)"
  "entities (spawnObstacle b s) = (if obstacleDue b s then entities s @ [newObstacle s] else entities s)"
  by (simp_all add: spawnObstacle_def)

lemma spawnCoin_fields [simp]:
  "playerY (spawnCoin t r s) = playerY s"
  "playerVelY (spawnCoin t r s) = playerVelY s"
  "isJumping (spawnCoin t r s) = isJumping s"
  "groundY (spawnCoin t r s) = groundY s"
  "scrollSpeed (spawnCoin t r s) = scrollSpeed s"
  "distance (spawnCoin t r s) = distance s"
  "bassCooldown (spawnCoin t r s) = bassCooldown s"
  "score (spawnCoin t r s) = score s"
  "gameOver (spawnCoin t r s) = gameOver s"
  "gameTime (spawnCoin t r s) = gameTime s"
  "trebleCooldown (spawnCoin t r s) = (if coinDue t s then 15 else trebleCooldown s)"
  "nextId (spawnCoin t r s) = (if coinDue t s then nextId s + 1 else nextId s)"
  "entities (spawnCoin t r s) = (if coinDue t s then entities s @ [newCoin r s] else entities s)"
  by (simp_all add: spawnCoin_def)

lemma loopResult_fields [simp]:
  "playerY (fst (loopResult (s, out))) = playerY s"
  "playerVelY (fst (loopResult (s, out))) = playerVelY s"
  "isJumping (fst (loopResult (s, out))) = isJumping s"
  "groundY (fst (loopResult (s, out))) = groundY s"
  "scrollSpeed (fst (loopResult (s, out))) = scrollSpeed s"
  "distance (fst (loopResult (s, out))) = distance s"
  "nextId (fst (loopResult (s, out))) = nextId s"
  "bassCooldown (fst (loopResult (s, out))) = bassCooldown s"
  "trebleCooldown (fst (loopResult (s, out))) = trebleCooldown s"
  "gameTime (fst (loopResult (s, out))) = gameTime s"
  "entities (fst (loopResult (s, out))) = survivors (scrollSpeed s) (playerY s) (entities s)"
  "score (fst (loopResult (s, out))) =
     score s + 50 * int (coinCount (scrollSpeed s) (playerY s) (entities s))"
  "gameOver (fst (loopResult (s, out))) =
     (gameOver s \<or> anyObstacleHit (scrollSpeed s) (playerY s) (entities s))"
  by (simp_all add: loopResult_def Let_def)

lemma passiveScore_fields [simp]:
  "playerY (fst (passiveScore st)) = playerY (fst st)"
  "playerVelY (fst (passiveScore st)) = playerVelY (fst st)"
  "isJumping (fst (passiveScore st)) = isJumping (fst st)"
  "groundY (fst (passiveScore st)) = groundY (fst st)"
  "scrollSpeed (fst (passiveScore st)) = scrollSpeed (fst st)"
  "distance (fst (passiveScore st)) = distance (fst st)"
  "entities (fst (passiveScore st)) = entities (fst st)"
  "nextId (fst (passiveScore st)) = nextId (fst st)"
  "bassCooldown (fst (passiveScore st)) = bassCooldown (fst st)"
  "trebleCooldown (fst (passiveScore st)) = trebleCooldown (fst st)"
  "gameOver (fst (passiveScore st)) = gameOver (fst st)"
  "gameTime (fst (passiveScore st)) = gameTime (fst st)"
  "score (fst (passiveScore st)) =
     (if gameTime (fst st) mod 10 = 0 then score (fst st) + 1 else score (fst st))"
  by (simp_all add: passiveScore_def split: prod.splits)

text \<open>The state an active frame leaves, in terms of the stages.\<close>

lemma update_active_state:
  assumes "\<not> gameOver s" and "update True an rnd s = Some (s', out)"
  shows "s' = fst (passiveScore (loopResult
           (beforeEntities (fst (fst (audioAnalysis True an s)))
              (fst (snd (fst (audioAnalysis True an s)))) rnd
              (snd (audioAnalysis True an s)), [])))"
proof -
  obtain b t v s1 where aa: "audioAnalysis True an s = ((b, t, v), s1)"
    by (metis prod.exhaust)
  from update_active [OF assms(1) aa, of rnd] assms(2)
  have "passiveScore (loopResult (beforeEntities b t rnd s1, [])) = (s', out)"
    by simp
  then show ?thesis
    by (simp add: aa)
qed

lemma physics_clamp:
  "playerY (physics s) \<le> groundY s"
  "groundY s \<le> playerY s + (playerVelY s + GRAVITY) \<Longrightarrow>
     playerY (physics s) = groundY s \<and> playerVelY (physics s) = 0 \<and> \<not> isJumping (physics s)"
  by (simp_all add: physics_def Let_def)

lemma physics_audio [simp]:
  "playerY (physics (snd (audioAnalysis ip an s))) = playerY (physics s)"
  "playerVelY (physics (snd (audioAnalysis ip an s))) = playerVelY (physics s)"
  "isJumping (physics (snd (audioAnalysis ip an s))) = isJumping (physics s)"
  by (simp_all add: physics_def Let_def)

section \<open>The sampler on well-formed snapshots\<close>

lemma sumBins_bound:
  "hi \<le> length d \<Longrightarrow>
     \<exists>t. sumBins d i hi (Fin a) = Fin t \<and> a \<le> t \<and> t \<le> a + 255 * real (hi - i)"
proof (induction "hi - i" arbitrary: i a)
  case 0
  then show ?case by (simp add: sumBins.simps)
next
  case (Suc n)
  then have lt: "i < hi" and n: "n = hi - Suc i" by simp_all
  from Suc.hyps(1) [OF n Suc.prems, of "a + real (unat (d ! i))"]
  obtain t where t: "sumBins d (Suc i) hi (Fin (a + real (unat (d ! i)))) = Fin t"
    and lo: "a + real (unat (d ! i)) \<le> t"
    and hi: "t \<le> a + real (unat (d ! i)) + 255 * real (hi - Suc i)"
    by blast
  have "unat (d ! i) < 2 ^ LENGTH(8)"
    by (rule unsigned_less)
  then have byte: "unat (d ! i) \<le> 255"
    by simp
  have "sumBins d i hi (Fin a) = Fin t"
    using lt Suc.prems t by (subst sumBins.simps) simp
  moreover have "a \<le> t" using lo by linarith
  moreover have "t \<le> a + 255 * real (hi - i)"
  proof -
    have "real (hi - i) = real (hi - Suc i) + 1" using lt by simp
    with hi byte show ?thesis by linarith
  qed
  ultimately show ?case by blast
qed

lemma volume_range:
  assumes "sampleSpectrum d = (b, t, v)"
  shows "v = NaN \<or> (\<exists>x. v = Fin x \<and> 0 \<le> x \<and> x \<le> 1)"
proof (cases "length d = 0")
  case True
  with assms show ?thesis
    by (simp add: sampleSpectrum_def sumBins.simps)
next
  case False
  from sumBins_bound [of "length d" d 0 0]
  obtain tot where tot: "sumBins d 0 (length d) (Fin 0) = Fin tot"
    and lo: "0 \<le> tot" and hi: "tot \<le> 255 * real (length d)"
    by auto
  from assms tot False have v: "v = Fin (tot / real (length d) / 255)"
    by (simp add: sampleSpectrum_def Let_def)
  have "0 \<le> tot / real (length d) / 255"
    using lo by simp
  moreover have "tot / real (length d) / 255 \<le> 1"
    using hi False by (simp add: field_simps)
  ultimately show ?thesis using v by blast
qed

lemma speed_range:
  assumes "\<not> gameOver s"
  shows "scrollSpeed (snd (audioAnalysis True (Some d) s)) = NaN \<or>
     (\<exists>x. scrollSpeed (snd (audioAnalysis True (Some d) s)) = Fin x \<and> 3 \<le> x \<and> x \<le> 7)"
proof -
  obtain b t v where sp: "sampleSpectrum d = (b, t, v)"
    by (metis prod.exhaust)
  from volume_range [OF sp] assms show ?thesis
    by (auto simp: audioAnalysis_def sp)
qed





section \<open>Evaluating the example frames\<close>

lemmas frame_defs =
  update_def audioAnalysis_def entityLoop_result beforeEntities_def beforeSpawn_def
  spawnCoin_def spawnObstacle_def obstacleDue_def coinDue_def newObstacle_def newCoin_def
  cooldowns_def physics_def loopResult_def passiveScore_def
  survivors_def coinCount_def anyObstacleHit_def touch_def coinHit_def obstacleHit_def
  advance_def gone_def overlaps_def truthy_def jssub_def consts_defs Let_def

lemma sample_loud: "sampleSpectrum loudData = (Fin 255, Fin 255, Fin (1 / 2))"
  by (simp add: sampleSpectrum_def loudData_def sumBins.simps)

lemma loud_first_frame:
  "update True (Some loudData) (7 / 10) initialState = Some (afterLoud, [])"
  by (simp add: frame_defs sample_loud initialState_def afterLoud_def)

lemma loud_second_frame:
  "update True (Some loudData) (7 / 10) afterLoud =
     Some (afterLoudTwice\<lparr>playerVelY := 0, isJumping := False\<rparr>, [])"
  by (simp add: frame_defs sample_loud afterLoud_def afterLoudTwice_def)

lemma loud_run:
  "run [Frame True (Some loudData) (7 / 10), JumpIntent True] afterLoud = Some afterLoudTwice"
  by (simp add: loud_second_frame) (simp add: afterLoudTwice_def handleInput_def JUMP_FORCE_def)

lemma loud_spawns:
  "spawnsObstacle True (Some loudData) initialState"
  "spawnsCoin True (Some loudData) initialState"
  by (simp_all add: spawnsObstacle_def spawnsCoin_def frame_defs sample_loud initialState_def)

lemma quiet_frame:
  "update True None 0 jumpingState =
     Some (jumpingState\<lparr>playerY := 1103 / 5, playerVelY := - 47 / 5, bassCooldown := 2,
                        score := 1, gameTime := 10\<rparr>, [1])"
  by (simp add: frame_defs jumpingState_def handleInput_def initialState_def)

section \<open>The reset effect\<close>

text \<open>
  Claim C1, as stated, fails: the reset effect assigns seven fields and leaves the others
  alone. In a lost game the id counter, the two cooldowns and the scroll speed keep the
  values the game left, which are not the initial ones.
\<close>

theorem reset_counterexample:
  "gameOver crashedState \<and>
   nextId (fst (resetEffect True crashedState)) = 4 \<and> nextId initialState = 0 \<and>
   bassCooldown (fst (resetEffect True crashedState)) = 7 \<and> bassCooldown initialState = 0 \<and>
   scrollSpeed (fst (resetEffect True crashedState)) = Fin 5 \<and> scrollSpeed initialState = Fin 4"
  by (simp add: crashedState_def resetEffect_def initialState_def)

text \<open>
  Claim C1, amended: when \<open>gameOver\<close> holds or \<open>gameTime\<close> is 0, a play command resets
  \<open>playerY\<close>, \<open>playerVelY\<close>, \<open>isJumping\<close>, \<open>entities\<close>, \<open>score\<close>, \<open>gameOver\<close> and
  \<open>gameTime\<close> to their initial values and notifies the score 0; \<open>groundY\<close>,
  \<open>scrollSpeed\<close>, \<open>distance\<close>, \<open>nextId\<close>, \<open>bassCooldown\<close> and \<open>trebleCooldown\<close> keep
  their current values.
\<close>

theorem reset_fields:
  assumes "gameOver s \<or> gameTime s = 0"
  shows "resetEffect True s =
     (\<lparr> playerY = CANVAS_HEIGHT - GROUND_HEIGHT, playerVelY = 0, isJumping = False,
         groundY = groundY s, scrollSpeed = scrollSpeed s, distance = distance s,
         entities = [], nextId = nextId s, bassCooldown = bassCooldown s,
         trebleCooldown = trebleCooldown s, score = 0, gameOver = False, gameTime = 0 \<rparr>, [0])"
  using assms by (cases s) (auto simp: resetEffect_def)

theorem reset_fields_witness:
  "resetEffect True crashedState =
     (\<lparr> playerY = 230, playerVelY = 0, isJumping = False,
         groundY = 230, scrollSpeed = Fin 5, distance = 0,
         entities = [], nextId = 4, bassCooldown = 7,
         trebleCooldown = 2, score = 0, gameOver = False, gameTime = 0 \<rparr>, [0])"
  using reset_fields [of crashedState] by (simp add: crashedState_def consts_defs)

section \<open>Frames without an analyser\<close>

text \<open>
  Claim C2, as stated, fails: the physics block of \<open>update\<close> is guarded by
  \<open>isPlaying && !gameOver\<close> only, so a playing frame without an analyser still ticks
  the clock, applies gravity, counts the cooldowns down and scores.
\<close>

theorem no_analyser_counterexample:
  "gameTime jumpingState = 9 \<and> playerY jumpingState = 230 \<and> playerVelY jumpingState = - 10 \<and>
   bassCooldown jumpingState = 3 \<and> score jumpingState = 0 \<and>
   update True None 0 jumpingState =
     Some (jumpingState\<lparr>playerY := 1103 / 5, playerVelY := - 47 / 5, bassCooldown := 2,
                        score := 1, gameTime := 10\<rparr>, [1])"
  using quiet_frame
  by (simp add: jumpingState_def handleInput_def initialState_def consts_defs)

text \<open>
  Claim C2, amended: in a playing frame without an analyser, bass, treble and volume
  are 0, no entity is spawned and the scroll speed is not recomputed; while the game is
  not over the rest of the frame runs as usual: \<open>gameTime\<close> grows by one, gravity and
  the ground clamp give the player's new velocity and position, positive cooldowns
  drop by one, the existing entities are advanced, tested and pruned, and the score
  grows by 50 per collected coin and by the passive point on every tenth frame.
\<close>

theorem no_analyser_frame:
  "audioAnalysis True None s = ((Fin 0, Fin 0, Fin 0), s) \<and>
   \<not> spawnsObstacle True None s \<and> \<not> spawnsCoin True None s \<and>
   (\<not> gameOver s \<and> update True None rnd s = Some (s', out) \<longrightarrow>
      nextId s' = nextId s \<and>
      entities s' = survivors (scrollSpeed s) (playerY (physics s)) (entities s) \<and>
      scrollSpeed s' = scrollSpeed s \<and>
      gameTime s' = gameTime s + 1 \<and>
      playerVelY s' = playerVelY (physics s) \<and> playerY s' = playerY (physics s) \<and>
      bassCooldown s' = (if bassCooldown s > 0 then bassCooldown s - 1 else bassCooldown s) \<and>
      trebleCooldown s' =
        (if trebleCooldown s > 0 then trebleCooldown s - 1 else trebleCooldown s) \<and>
      score s' = score s
        + 50 * int (coinCount (scrollSpeed s) (playerY (physics s)) (entities s))
        + (if (gameTime s + 1) mod 10 = 0 then 1 else 0))"
proof (intro conjI)
  show "audioAnalysis True None s = ((Fin 0, Fin 0, Fin 0), s)"
    by simp
  show "\<not> spawnsObstacle True None s"
    by (simp add: spawnsObstacle_def obstacleDue_def)
  show "\<not> spawnsCoin True None s"
    by (simp add: spawnsCoin_def obstacleDue_def coinDue_def)
  show "\<not> gameOver s \<and> update True None rnd s = Some (s', out) \<longrightarrow>
      nextId s' = nextId s \<and>
      entities s' = survivors (scrollSpeed s) (playerY (physics s)) (entities s) \<and>
      scrollSpeed s' = scrollSpeed s \<and>
      gameTime s' = gameTime s + 1 \<and>
      playerVelY s' = playerVelY (physics s) \<and> playerY s' = playerY (physics s) \<and>
      bassCooldown s' = (if bassCooldown s > 0 then bassCooldown s - 1 else bassCooldown s) \<and>
      trebleCooldown s' =
        (if trebleCooldown s > 0 then trebleCooldown s - 1 else trebleCooldown s) \<and>
      score s' = score s
        + 50 * int (coinCount (scrollSpeed s) (playerY (physics s)) (entities s))
        + (if (gameTime s + 1) mod 10 = 0 then 1 else 0)"
  proof
  assume "\<not> gameOver s \<and> update True None rnd s = Some (s', out)"
  then have live: "\<not> gameOver s" and frame: "update True None rnd s = Some (s', out)"
    by simp_all
  note s' = update_active_state [OF live frame]
  show "nextId s' = nextId s \<and>
      entities s' = survivors (scrollSpeed s) (playerY (physics s)) (entities s) \<and>
      scrollSpeed s' = scrollSpeed s \<and>
      gameTime s' = gameTime s + 1 \<and>
      playerVelY s' = playerVelY (physics s) \<and> playerY s' = playerY (physics s) \<and>
      bassCooldown s' = (if bassCooldown s > 0 then bassCooldown s - 1 else bassCooldown s) \<and>
      trebleCooldown s' =
        (if trebleCooldown s > 0 then trebleCooldown s - 1 else trebleCooldown s) \<and>
      score s' = score s
        + 50 * int (coinCount (scrollSpeed s) (playerY (physics s)) (entities s))
        + (if (gameTime s + 1) mod 10 = 0 then 1 else 0)"
    by (simp add: s' beforeEntities_def obstacleDue_def coinDue_def)
  qed
qed

theorem no_analyser_frame_witness:
  "audioAnalysis True None jumpingState = ((Fin 0, Fin 0, Fin 0), jumpingState) \<and>
   update True None 0 jumpingState =
     Some (jumpingState\<lparr>playerY := 1103 / 5, playerVelY := - 47 / 5, bassCooldown := 2,
                        score := 1, gameTime := 10\<rparr>, [1]) \<and>
   gameTime (jumpingState\<lparr>playerY := 1103 / 5, playerVelY := - 47 / 5, bassCooldown := 2,
                        score := 1, gameTime := 10\<rparr>) = gameTime jumpingState + 1"
proof -
  have active: "\<not> gameOver jumpingState"
    by (simp add: jumpingState_def handleInput_def initialState_def)
  note fact = no_analyser_frame [of jumpingState 0
      "jumpingState\<lparr>playerY := 1103 / 5, playerVelY := - 47 / 5, bassCooldown := 2,
                        score := 1, gameTime := 10\<rparr>" "[1]"]
  from fact active quiet_frame show ?thesis
    by simp
qed

section \<open>The sampler and the length of the buffer\<close>




section \<open>Game over is terminal\<close>

lemma step_frozen:
  assumes "gameOver s" and "e \<noteq> PlayEffect True"
  shows "step e s = Some s"
proof (cases e)
  case (Frame ip an rnd)
  with assms show ?thesis by (simp add: update_inactive)
next
  case (JumpIntent ip)
  with assms show ?thesis by (simp add: handleInput_def)
next
  case (PlayEffect ip)
  with assms show ?thesis by (simp add: resetEffect_def)
qed

lemma run_frozen:
  "gameOver s \<Longrightarrow> PlayEffect True \<notin> set evs \<Longrightarrow> run evs s = Some s"
  by (induction evs) (auto simp: step_frozen)

text \<open>
  Claim C4: once \<open>gameOver\<close> is set, every frame leaves the whole state unchanged
  (so the score, the entities and \<open>playerY\<close>) and notifies nothing, and so does every
  sequence of frames, jump intents and runs of the effect that contains no play
  command; only the reset of a play command ends this.
\<close>

theorem game_over_freezes:
  assumes "gameOver s" and "PlayEffect True \<notin> set evs"
  shows "update ip an rnd s = Some (s, []) \<and> run evs s = Some s"
  using assms by (simp add: update_inactive run_frozen)

theorem game_over_freezes_witness:
  "update True (Some [200, 200, 200, 200, 200, 200, 200, 200, 200, 200]) 0 crashedState
     = Some (crashedState, []) \<and>
   run [Frame True (Some [200, 200, 200, 200, 200, 200, 200, 200, 200, 200]) 0,
        JumpIntent True, Frame True None 0, PlayEffect False, Frame False None 0]
       crashedState = Some crashedState"
proof -
  have over: "gameOver crashedState"
    by (simp add: crashedState_def)
  have no_reset: "PlayEffect True \<notin> set
      [Frame True (Some [200, 200, 200, 200, 200, 200, 200, 200, 200, 200]) 0,
       JumpIntent True, Frame True None 0, PlayEffect False, Frame False None 0]"
    by simp
  show ?thesis
    by (rule game_over_freezes [OF over no_reset])
qed

section \<open>Spawn cooldowns\<close>

lemma update_cooldowns_ge:
  assumes "update ip an rnd s = Some (s', out)"
  shows "bassCooldown s - 1 \<le> bassCooldown s' \<and> trebleCooldown s - 1 \<le> trebleCooldown s'"
proof (cases "ip \<and> \<not> gameOver s")
  case True
  then have "\<not> gameOver s" and "update True an rnd s = Some (s', out)"
    using assms by simp_all
  from update_active_state [OF this] show ?thesis
    by (simp add: beforeEntities_def obstacleDue_def coinDue_def)
next
  case False
  with assms update_inactive [of ip s an rnd] show ?thesis by auto
qed

lemma step_cooldowns_ge:
  assumes "step e s = Some s'"
  shows "bassCooldown s - (if isFrame e then 1 else 0) \<le> bassCooldown s' \<and>
         trebleCooldown s - (if isFrame e then 1 else 0) \<le> trebleCooldown s'"
proof (cases e)
  case (Frame ip an rnd)
  with assms obtain out where "update ip an rnd s = Some (s', out)" by auto
  from update_cooldowns_ge [OF this] Frame show ?thesis by simp
next
  case (JumpIntent ip)
  with assms show ?thesis by (auto simp: handleInput_def)
next
  case (PlayEffect ip)
  with assms show ?thesis by (auto simp: resetEffect_def)
qed

lemma run_cooldowns_ge:
  "run evs s = Some s' \<Longrightarrow>
     bassCooldown s - int (length (filter isFrame evs)) \<le> bassCooldown s' \<and>
     trebleCooldown s - int (length (filter isFrame evs)) \<le> trebleCooldown s'"
proof (induction evs arbitrary: s)
  case Nil
  then show ?case by simp
next
  case (Cons e evs)
  then obtain s1 where first: "step e s = Some s1" and rest: "run evs s1 = Some s'"
    by (auto split: option.splits)
  from step_cooldowns_ge [OF first] Cons.IH [OF rest] show ?case
    by (cases "isFrame e") auto
qed

lemma spawnsObstacle_alt:
  "spawnsObstacle ip an s =
     (ip \<and> \<not> gameOver s \<and>
      obstacleDue (fst (fst (audioAnalysis ip an s))) (beforeSpawn (snd (audioAnalysis ip an s))))"
proof -
  obtain b t v s1 where aa: "audioAnalysis ip an s = ((b, t, v), s1)"
    by (metis prod.exhaust)
  have "gameOver s1 = gameOver s"
    using audioAnalysis_gameOver [of ip an s] aa by simp
  then show ?thesis
    by (simp add: spawnsObstacle_def aa)
qed

lemma spawnsCoin_alt:
  "spawnsCoin ip an s =
     (ip \<and> \<not> gameOver s \<and>
      coinDue (fst (snd (fst (audioAnalysis ip an s))))
        (spawnObstacle (fst (fst (audioAnalysis ip an s)))
           (beforeSpawn (snd (audioAnalysis ip an s)))))"
proof -
  obtain b t v s1 where aa: "audioAnalysis ip an s = ((b, t, v), s1)"
    by (metis prod.exhaust)
  have "gameOver s1 = gameOver s"
    using audioAnalysis_gameOver [of ip an s] aa by simp
  then show ?thesis
    by (simp add: spawnsCoin_def aa)
qed

lemma spawnsObstacle_needs:
  "spawnsObstacle ip an s \<Longrightarrow> bassCooldown s \<le> 1"
  by (auto simp: spawnsObstacle_alt obstacleDue_def split: if_splits)

lemma spawnsCoin_needs:
  "spawnsCoin ip an s \<Longrightarrow> trebleCooldown s \<le> 1"
  by (auto simp: spawnsCoin_alt coinDue_def split: if_splits)

lemma spawnsObstacle_sets:
  assumes "spawnsObstacle ip an s" and "update ip an rnd s = Some (s', out)"
  shows "bassCooldown s' = 25"
proof -
  from assms(1) have ip: ip and live: "\<not> gameOver s"
    by (simp_all add: spawnsObstacle_alt)
  from assms(2) ip have "update True an rnd s = Some (s', out)" by simp
  from update_active_state [OF live this] assms(1) ip show ?thesis
    by (simp add: beforeEntities_def spawnsObstacle_alt)
qed

lemma spawnsCoin_sets:
  assumes "spawnsCoin ip an s" and "update ip an rnd s = Some (s', out)"
  shows "trebleCooldown s' = 15"
proof -
  from assms(1) have ip: ip and live: "\<not> gameOver s"
    by (simp_all add: spawnsCoin_alt)
  from assms(2) ip have "update True an rnd s = Some (s', out)" by simp
  from update_active_state [OF live this] assms(1) ip show ?thesis
    by (simp add: beforeEntities_def spawnsCoin_alt)
qed

text \<open>
  Claim C5: after a frame that spawns an obstacle, none of the next 24 frames spawns
  one, whatever else happens in between, so two consecutive obstacle spawns are at
  least 25 frames apart; likewise none of the 14 frames after a coin spawn spawns a
  coin, so two consecutive coin spawns are at least 15 frames apart.
\<close>

theorem spawn_gaps:
  assumes "update ip an rnd s = Some (s1, out)" and "run evs s1 = Some s2"
  shows "(spawnsObstacle ip an s \<and> length (filter isFrame evs) < 24
            \<longrightarrow> \<not> spawnsObstacle ip' an' s2) \<and>
         (spawnsCoin ip an s \<and> length (filter isFrame evs) < 14
            \<longrightarrow> \<not> spawnsCoin ip' an' s2)"
proof (intro conjI impI)
  assume a: "spawnsObstacle ip an s \<and> length (filter isFrame evs) < 24"
  with spawnsObstacle_sets assms(1) have "bassCooldown s1 = 25" by blast
  with run_cooldowns_ge [OF assms(2)] a have "1 < bassCooldown s2" by simp
  with spawnsObstacle_needs [of ip' an' s2] show "\<not> spawnsObstacle ip' an' s2" by auto
next
  assume a: "spawnsCoin ip an s \<and> length (filter isFrame evs) < 14"
  with spawnsCoin_sets assms(1) have "trebleCooldown s1 = 15" by blast
  with run_cooldowns_ge [OF assms(2)] a have "1 < trebleCooldown s2" by simp
  with spawnsCoin_needs [of ip' an' s2] show "\<not> spawnsCoin ip' an' s2" by auto
qed

theorem spawn_gaps_witness:
  "spawnsObstacle True (Some loudData) initialState \<and>
   spawnsCoin True (Some loudData) initialState \<and>
   update True (Some loudData) (7 / 10) initialState = Some (afterLoud, []) \<and>
   run [Frame True (Some loudData) (7 / 10), JumpIntent True] afterLoud = Some afterLoudTwice \<and>
   \<not> spawnsObstacle True (Some loudData) afterLoudTwice \<and>
   \<not> spawnsCoin True (Some loudData) afterLoudTwice"
  using spawn_gaps [OF loud_first_frame loud_run, of True "Some loudData"]
    loud_spawns loud_first_frame loud_run
  by simp

section \<open>The entity loop against the three phases\<close>

text \<open>
  Claim C6: the reverse loop that advances, tests and splices one entity at a time
  leaves the same state as the three phases of the specification (advance all, collide
  over the unpruned list, prune): the same entities in the same order, the same score
  and the same game-over flag, from every starting state. It also makes the same
  notifications, and it never reads beyond the array.
\<close>

theorem entityLoop_refines_three_phase:
  "entityLoop (s, out) = Some (spec_entityPass (s, out))"
  by (simp only: entityLoop_closed spec_entityPass_closed)

theorem entityLoop_refines_three_phase_witness:
  "entityLoop (doubleHitState\<lparr>playerY := 1027 / 5\<rparr>, []) =
     Some (doubleHitState\<lparr>playerY := 1027 / 5,
             entities := [doubleHitObstacle\<lparr>ent_x := Fin 125\<rparr>],
             score := 170, gameOver := True\<rparr>, [170])"
  using entityLoop_refines_three_phase [of "doubleHitState\<lparr>playerY := 1027 / 5\<rparr>" "[]"]
  by (simp add: doubleHitState_def doubleHitCoin_def doubleHitObstacle_def
      spec_entityPass_def spec_advance_def spec_prune_def
      overlaps_def truthy_def jssub_def consts_defs)

section \<open>Gravity and the ground\<close>

text \<open>
  Claim C7: after every active frame \<open>playerY \<le> groundY\<close>; the frame leaves the
  player where the physics step put it, and whenever the position integrated under
  gravity reaches \<open>groundY\<close> the step clamps \<open>playerY\<close> to \<open>groundY\<close>, zeroes
  \<open>playerVelY\<close> and clears \<open>isJumping\<close>.
\<close>

theorem ground_clamp:
  assumes "\<not> gameOver s" and "update True an rnd s = Some (s', out)"
  shows "playerY s' = playerY (physics s) \<and> playerVelY s' = playerVelY (physics s) \<and>
         isJumping s' = isJumping (physics s) \<and> groundY s' = groundY s \<and>
         playerY s' \<le> groundY s' \<and>
         (groundY s \<le> playerY s + (playerVelY s + GRAVITY) \<longrightarrow>
            playerY s' = groundY s \<and> playerVelY s' = 0 \<and> \<not> isJumping s')"
  using physics_clamp [of s]
  by (simp add: update_active_state [OF assms] beforeEntities_def)

theorem ground_clamp_witness:
  "update True None 0 initialState = Some (initialState\<lparr>gameTime := 1\<rparr>, []) \<and>
   groundY initialState \<le> playerY initialState + (playerVelY initialState + GRAVITY) \<and>
   playerY (initialState\<lparr>gameTime := 1\<rparr>) = 230 \<and>
   groundY (initialState\<lparr>gameTime := 1\<rparr>) = 230 \<and>
   playerVelY (initialState\<lparr>gameTime := 1\<rparr>) = 0 \<and>
   \<not> isJumping (initialState\<lparr>gameTime := 1\<rparr>)"
proof -
  have live: "\<not> gameOver initialState"
    by (simp add: initialState_def)
  have frame: "update True None 0 initialState = Some (initialState\<lparr>gameTime := 1\<rparr>, [])"
    by (simp add: frame_defs initialState_def)
  have falls: "groundY initialState \<le> playerY initialState + (playerVelY initialState + GRAVITY)"
    by (simp add: initialState_def consts_defs)
  from ground_clamp [OF live frame] falls frame show ?thesis
    by (simp add: initialState_def consts_defs)
qed

section \<open>Jump intents\<close>

text \<open>
  Claim C8, as stated, fails: the listener returns at once while the game is not
  playing (or is over), so a jump intent delivered then, with \<open>isJumping\<close> false,
  changes nothing.
\<close>

theorem jump_counterexample:
  "\<not> isJumping initialState \<and> playerVelY (handleInput False initialState) = 0 \<and>
   \<not> isJumping (handleInput False initialState)"
  by (simp add: handleInput_def initialState_def)

text \<open>
  Claim C8, amended: while the game is playing and not over, a jump intent delivered
  with \<open>isJumping\<close> false sets \<open>playerVelY\<close> to -10 and \<open>isJumping\<close> to true; a jump
  intent delivered while \<open>isJumping\<close> is true changes nothing (the forgiveness branch
  is empty); and a jump intent delivered while paused or after game over changes
  nothing.
\<close>

theorem jump_intent:
  "(ip \<and> \<not> gameOver s \<and> \<not> isJumping s \<longrightarrow>
      handleInput ip s = s\<lparr>playerVelY := - 10, isJumping := True\<rparr>) \<and>
   (isJumping s \<longrightarrow> handleInput ip s = s) \<and>
   (\<not> ip \<or> gameOver s \<longrightarrow> handleInput ip s = s)"
  by (simp add: handleInput_def JUMP_FORCE_def)

theorem jump_intent_witness:
  "handleInput True initialState = initialState\<lparr>playerVelY := - 10, isJumping := True\<rparr> \<and>
   handleInput True (handleInput True initialState) = handleInput True initialState \<and>
   handleInput False initialState = initialState"
  using jump_intent [of True initialState] jump_intent [of True "handleInput True initialState"]
    jump_intent [of False initialState]
  by (simp add: initialState_def)

section \<open>Spawning an obstacle\<close>

lemma touch_id [simp]: "ent_id (touch v p e) = ent_id e"
  by (simp add: touch_def advance_def)

lemma survivors_ids_subset: "ent_id ` set (survivors v p es) \<subseteq> ent_id ` set es"
  by (auto simp: survivors_def)

lemma survivors_distinct:
  "distinct (map ent_id es) \<Longrightarrow> distinct (map ent_id (survivors v p es))"
proof (induction es)
  case Nil
  then show ?case by (simp add: survivors_def)
next
  case (Cons e es)
  have "survivors v p (e # es) = survivors v p [e] @ survivors v p es"
    using survivors_append [of v p "[e]" es] by simp
  moreover have "ent_id e \<notin> ent_id ` set (survivors v p es)"
    using Cons.prems survivors_ids_subset [of v p es] by auto
  ultimately show ?case
    using Cons by (auto simp: survivors_def)
qed

lemma survivors_below:
  "list_all (\<lambda>e. ent_id e < n) es \<Longrightarrow> list_all (\<lambda>e. ent_id e < n) (survivors v p es)"
  by (induction es) (auto simp: survivors_def)

lemma idsOk_spawnObstacle: "idsOk s \<Longrightarrow> idsOk (spawnObstacle b s)"
  by (auto simp: idsOk_def newObstacle_def list_all_iff)

lemma idsOk_spawnCoin: "idsOk s \<Longrightarrow> idsOk (spawnCoin t r s)"
  by (auto simp: idsOk_def newCoin_def list_all_iff)

lemma idsOk_beforeSpawn: "idsOk s \<Longrightarrow> idsOk (beforeSpawn s)"
  by (simp add: idsOk_def)

lemma idsOk_audio: "idsOk s \<Longrightarrow> idsOk (snd (audioAnalysis ip an s))"
  by (simp add: idsOk_def)

lemma update_idsOk:
  assumes "idsOk s" and "update ip an rnd s = Some (s', out)"
  shows "idsOk s'"
proof (cases "ip \<and> \<not> gameOver s")
  case True
  then have live: "\<not> gameOver s" and frame: "update True an rnd s = Some (s', out)"
    using assms by simp_all
  let ?b = "fst (fst (audioAnalysis True an s))" and ?t = "fst (snd (fst (audioAnalysis True an s)))"
  let ?s4 = "beforeEntities ?b ?t rnd (snd (audioAnalysis True an s))"
  have "idsOk ?s4"
    unfolding beforeEntities_def
    by (intro idsOk_spawnCoin idsOk_spawnObstacle idsOk_beforeSpawn idsOk_audio assms(1))
  then have "distinct (map ent_id (survivors (scrollSpeed ?s4) (playerY ?s4) (entities ?s4)))"
    and "list_all (\<lambda>e. ent_id e < nextId ?s4) (survivors (scrollSpeed ?s4) (playerY ?s4) (entities ?s4))"
    by (simp_all add: idsOk_def survivors_distinct survivors_below)
  then show ?thesis
    unfolding idsOk_def update_active_state [OF live frame] by simp
next
  case False
  with assms update_inactive [of ip s an rnd] show ?thesis by auto
qed

text \<open>Every state an execution reaches from the initial state has well-formed ids.\<close>

lemma step_idsOk:
  assumes "idsOk s" and "step e s = Some s'"
  shows "idsOk s'"
proof (cases e)
  case (Frame ip an rnd)
  with assms(2) obtain out where "update ip an rnd s = Some (s', out)" by auto
  from update_idsOk [OF assms(1) this] show ?thesis .
next
  case (JumpIntent ip)
  with assms show ?thesis by (auto simp: handleInput_def idsOk_def)
next
  case (PlayEffect ip)
  with assms show ?thesis by (auto simp: resetEffect_def idsOk_def)
qed

lemma run_idsOk:
  "idsOk s \<Longrightarrow> run evs s = Some s' \<Longrightarrow> idsOk s'"
proof (induction evs arbitrary: s)
  case Nil
  then show ?case by simp
next
  case (Cons e evs)
  then obtain s1 where "step e s = Some s1" and "run evs s1 = Some s'"
    by (auto split: option.splits)
  with Cons.IH step_idsOk [OF Cons.prems(1)] show ?case by blast
qed

lemma reachable_idsOk: "run evs initialState = Some s \<Longrightarrow> idsOk s"
  by (rule run_idsOk [of initialState]) (simp_all add: idsOk_def initialState_def)

text \<open>A frame always returns: the entity loop never reads beyond the array.\<close>

lemma update_returns: "\<exists>s' out. update ip an rnd s = Some (s', out)"
  by (cases "audioAnalysis ip an s")
     (auto simp: update_def entityLoop_result split: prod.splits intro: prod.exhaust)

text \<open>An entity just pushed at \<open>SPAWN_X\<close> is neither hit nor pruned in its first pass.\<close>

lemma fresh_obstacle_passes:
  assumes "v = NaN \<or> (\<exists>x. v = Fin x \<and> 3 \<le> x \<and> x \<le> 7)"
  shows "survivors v p [newObstacle s] = [advance v (newObstacle s)]"
    and "coinCount v p [newObstacle s] = 0"
    and "\<not> anyObstacleHit v p [newObstacle s]"
  using assms
  by (auto simp: survivors_def coinCount_def anyObstacleHit_def touch_def coinHit_def
      obstacleHit_def gone_def advance_def overlaps_def truthy_def newObstacle_def jssub_def
      consts_defs)

lemma fresh_coin_passes:
  assumes "v = NaN \<or> (\<exists>x. v = Fin x \<and> 3 \<le> x \<and> x \<le> 7)"
  shows "survivors v p [newCoin r s] = [advance v (newCoin r s)]"
    and "coinCount v p [newCoin r s] = 0"
    and "\<not> anyObstacleHit v p [newCoin r s]"
  using assms
  by (auto simp: survivors_def coinCount_def anyObstacleHit_def touch_def coinHit_def
      obstacleHit_def gone_def advance_def overlaps_def truthy_def newCoin_def jssub_def
      consts_defs Let_def)

lemma audio_features:
  "\<not> gameOver s \<Longrightarrow> fst (audioAnalysis True (Some d) s) = sampleSpectrum d"
  by (simp add: audioAnalysis_def split: prod.splits)

text \<open>
  Claim C9: in every active frame with bass above 155 and \<open>bassCooldown\<close> at 0 the
  obstacle branch is taken and pushes exactly one entity behind the existing ones:
  an obstacle with the next id at \<open>x = 530\<close>, \<open>y = groundY - 30\<close>, 24 wide and 30
  high; the frame ends with \<open>bassCooldown = 25\<close>. By the end of the same frame the
  entity loop has moved the new obstacle left by the scroll speed, without hitting or
  pruning it, and the list holds the survivors of the old entities, this obstacle, and
  the coin of this frame if one was spawned. With well-formed ids before the frame the
  ids are well-formed after it, so the new id occurs once.
\<close>

theorem obstacle_spawn:
  assumes live: "\<not> gameOver s"
    and feat: "sampleSpectrum data = (bass, treble, volume)"
    and loud: "jsless (Fin 155) bass"
    and ready: "bassCooldown s = 0"
    and frame: "update True (Some data) rnd s = Some (s', out)"
  shows "spawnsObstacle True (Some data) s \<and>
     entities (spawnObstacle bass (beforeSpawn (snd (audioAnalysis True (Some data) s)))) =
       entities s @
       [\<lparr> ent_id = nextId s, ent_x = Fin 530, ent_y = groundY s - 30, ent_w = 24, ent_h = 30,
           ent_type = obstacle, ent_color = ''#ff4081'', ent_collected = None \<rparr>] \<and>
     bassCooldown s' = 25 \<and>
     entities s' =
       survivors (scrollSpeed s') (playerY s') (entities s) @
       [\<lparr> ent_id = nextId s, ent_x = jssub (Fin 530) (scrollSpeed s'), ent_y = groundY s - 30,
           ent_w = 24, ent_h = 30, ent_type = obstacle, ent_color = ''#ff4081'',
           ent_collected = None \<rparr>] @
       (if spawnsCoin True (Some data) s
        then [advance (scrollSpeed s') (newCoin rnd (s\<lparr>nextId := nextId s + 1\<rparr>))] else []) \<and>
     (idsOk s \<longrightarrow> idsOk s')"
proof -
  let ?s1 = "snd (audioAnalysis True (Some data) s)"
  have b: "fst (fst (audioAnalysis True (Some data) s)) = bass"
    and t: "fst (snd (fst (audioAnalysis True (Some data) s))) = treble"
    using audio_features [OF live, of data] feat by simp_all
  have due: "obstacleDue bass (beforeSpawn ?s1)"
    using loud ready by (simp add: obstacleDue_def)
  have spawns: "spawnsObstacle True (Some data) s"
    using live due by (simp add: spawnsObstacle_alt b)
  have at_push: "entities (spawnObstacle bass (beforeSpawn ?s1)) =
       entities s @
       [\<lparr> ent_id = nextId s, ent_x = Fin 530, ent_y = groundY s - 30, ent_w = 24, ent_h = 30,
           ent_type = obstacle, ent_color = ''#ff4081'', ent_collected = None \<rparr>]"
    using due by (simp add: newObstacle_def consts_defs)
  have cool: "bassCooldown s' = 25"
    using spawnsObstacle_sets [OF spawns frame] .
  have ids: "idsOk s \<longrightarrow> idsOk s'"
    using update_idsOk [OF _ frame] by blast
  have speed: "scrollSpeed ?s1 = NaN \<or> (\<exists>x. scrollSpeed ?s1 = Fin x \<and> 3 \<le> x \<and> x \<le> 7)"
    using speed_range [OF live] .
  have coin_eq: "newCoin rnd (spawnObstacle bass (beforeSpawn ?s1)) =
                 newCoin rnd (s\<lparr>nextId := nextId s + 1\<rparr>)"
    using due by (simp add: newCoin_def)
  let ?v = "scrollSpeed ?s1" and ?p = "playerY (physics s)"
  let ?so = "spawnObstacle bass (beforeSpawn ?s1)"
  let ?coins = "if coinDue treble ?so then [newCoin rnd ?so] else []"
  have final: "entities s' = survivors ?v ?p (entities (spawnCoin treble rnd ?so))"
    and v: "scrollSpeed s' = ?v" and p: "playerY s' = ?p"
    by (simp_all add: update_active_state [OF live frame] beforeEntities_def b t)
  have "entities (spawnCoin treble rnd ?so) = entities s @ [newObstacle (beforeSpawn ?s1)] @ ?coins"
    using due by simp
  then have "entities s' = survivors ?v ?p (entities s) @
       survivors ?v ?p [newObstacle (beforeSpawn ?s1)] @ survivors ?v ?p ?coins"
    by (simp only: final survivors_append)
  moreover have "survivors ?v ?p [newObstacle (beforeSpawn ?s1)] =
       [\<lparr> ent_id = nextId s, ent_x = jssub (Fin 530) ?v, ent_y = groundY s - 30,
           ent_w = 24, ent_h = 30, ent_type = obstacle, ent_color = ''#ff4081'',
           ent_collected = None \<rparr>]"
    by (simp add: fresh_obstacle_passes(1) [OF speed]) (simp add: newObstacle_def advance_def consts_defs)
  moreover have "survivors ?v ?p ?coins =
       (if spawnsCoin True (Some data) s
        then [advance ?v (newCoin rnd (s\<lparr>nextId := nextId s + 1\<rparr>))] else [])"
  proof (cases "coinDue treble ?so")
    case True
    then have "spawnsCoin True (Some data) s"
      using live by (simp add: spawnsCoin_alt b t)
    with True show ?thesis
      by (simp add: fresh_coin_passes(1) [OF speed] coin_eq)
  next
    case False
    then have "\<not> spawnsCoin True (Some data) s"
      by (simp add: spawnsCoin_alt b t)
    with False show ?thesis
      by (simp add: survivors_def)
  qed
  ultimately have at_end: "entities s' =
       survivors (scrollSpeed s') (playerY s') (entities s) @
       [\<lparr> ent_id = nextId s, ent_x = jssub (Fin 530) (scrollSpeed s'), ent_y = groundY s - 30,
           ent_w = 24, ent_h = 30, ent_type = obstacle, ent_color = ''#ff4081'',
           ent_collected = None \<rparr>] @
       (if spawnsCoin True (Some data) s
        then [advance (scrollSpeed s') (newCoin rnd (s\<lparr>nextId := nextId s + 1\<rparr>))] else [])"
    by (simp only: v p)
  from spawns at_push cool at_end ids show ?thesis
    by blast
qed

theorem obstacle_spawn_witness:
  "update True (Some loudData) (7 / 10) initialState = Some (afterLoud, []) \<and>
   spawnsObstacle True (Some loudData) initialState \<and>
   entities (spawnObstacle (Fin 255)
       (beforeSpawn (snd (audioAnalysis True (Some loudData) initialState)))) =
     [\<lparr> ent_id = 0, ent_x = Fin 530, ent_y = 200, ent_w = 24, ent_h = 30,
         ent_type = obstacle, ent_color = ''#ff4081'', ent_collected = None \<rparr>] \<and>
   bassCooldown afterLoud = 25 \<and>
   idsOk afterLoud"
proof -
  have live: "\<not> gameOver initialState"
    by (simp add: initialState_def)
  have loud: "jsless (Fin 155) (Fin 255)"
    by simp
  have ready: "bassCooldown initialState = 0"
    by (simp add: initialState_def)
  have ok: "idsOk initialState"
    by (simp add: idsOk_def initialState_def)
  note fact = obstacle_spawn [OF live sample_loud loud ready loud_first_frame]
  have "entities (spawnObstacle (Fin 255)
       (beforeSpawn (snd (audioAnalysis True (Some loudData) initialState)))) =
     [\<lparr> ent_id = 0, ent_x = Fin 530, ent_y = 200, ent_w = 24, ent_h = 30,
         ent_type = obstacle, ent_color = ''#ff4081'', ent_collected = None \<rparr>]"
    using fact [THEN conjunct2, THEN conjunct1]
    by (simp add: initialState_def consts_defs)
  moreover have "spawnsObstacle True (Some loudData) initialState"
    using fact by (rule conjunct1)
  moreover have "bassCooldown afterLoud = 25 \<and> idsOk afterLoud"
    using fact ok by blast
  ultimately show ?thesis
    using loud_first_frame by blast
qed

section \<open>Game over in the middle of the entity loop\<close>

lemma entityLoopDown_split:
  "entityLoopDown lo (a + b) st =
     (case entityLoopDown (lo + a) b st of None \<Rightarrow> None | Some st' \<Rightarrow> entityLoopDown lo a st')"
  by (induction b arbitrary: st) (simp_all add: add.assoc split: option.splits)

text \<open>
  Claim C10: setting \<open>gameOver\<close> does not stop the entity loop. When an obstacle at a
  higher index and an uncollected coin at a lower index both overlap the player after
  advancing, the loop has set \<open>gameOver\<close> by the time it reaches the coin, and the body
  at the coin's index still advances it, collects it, adds 50 to the score, notifies
  the new score and splices the coin out; the loop then goes on with the remaining
  indices.
\<close>

theorem coin_after_game_over:
  assumes ents: "entities s = pre @ c # mid @ ob # post"
    and hit_ob: "obstacleHit (scrollSpeed s) (playerY s) ob"
    and hit_c: "coinHit (scrollSpeed s) (playerY s) c"
  shows "\<exists>s1 out1 s2.
      entityLoopDown (Suc (length pre)) (length (mid @ ob # post)) (s, out) = Some (s1, out1) \<and>
      gameOver s1 \<and>
      entities s1 = pre @ c # survivors (scrollSpeed s) (playerY s) (mid @ ob # post) \<and>
      entityStep (length pre) (s1, out1) = Some (s2, out1 @ [score s1 + 50]) \<and>
      score s2 = score s1 + 50 \<and> gameOver s2 \<and>
      entities s2 = pre @ survivors (scrollSpeed s) (playerY s) (mid @ ob # post) \<and>
      entityLoop (s, out) = entityLoopDown 0 (length pre) (s2, out1 @ [score s1 + 50])"
proof -
  let ?v = "scrollSpeed s" and ?p = "playerY s"
  let ?tail = "mid @ ob # post"
  let ?s1 = "s\<lparr>entities := (pre @ [c]) @ survivors ?v ?p ?tail @ [],
                 score := score s + 50 * int (coinCount ?v ?p ?tail),
                 gameOver := gameOver s \<or> anyObstacleHit ?v ?p ?tail\<rparr>"
  let ?out1 = "out @ coinNotes (score s) (coinCount ?v ?p ?tail)"
  let ?s2 = "?s1\<lparr>entities := pre @ survivors ?v ?p [c] @ survivors ?v ?p ?tail,
                   score := score ?s1 + 50 * int (coinCount ?v ?p [c]),
                   gameOver := gameOver ?s1 \<or> anyObstacleHit ?v ?p [c]\<rparr>"
  have "entities s = (pre @ [c]) @ ?tail @ []"
    using ents by simp
  from entityLoopDown_closed [OF this, of out]
  have upper: "entityLoopDown (Suc (length pre)) (length ?tail) (s, out) = Some (?s1, ?out1)"
    by simp
  have over: "gameOver ?s1"
    using hit_ob by (simp add: anyObstacleHit_def)
  have "entities ?s1 = pre @ c # survivors ?v ?p ?tail"
    by simp
  from entityStep_at [OF this, of ?out1]
  have coin_step: "entityStep (length pre) (?s1, ?out1) = Some (?s2, ?out1 @ coinNotes (score ?s1) (coinCount ?v ?p [c]))"
    by simp
  have one: "coinCount ?v ?p [c] = 1"
    using hit_c by (simp add: coinCount_def)
  have gone_c: "survivors ?v ?p [c] = []"
    using hit_c by (simp add: survivors_def touch_def gone_def truthy_def)
  have whole: "entityLoop (s, out) =
      entityLoopDown 0 (length pre) (?s2, ?out1 @ [score ?s1 + 50])"
  proof -
    have "length (entities s) = Suc (length pre) + length ?tail"
      using ents by simp
    then have "entityLoop (s, out) = entityLoopDown 0 (Suc (length pre) + length ?tail) (s, out)"
      by (simp add: entityLoop_def)
    also have "\<dots> = entityLoopDown 0 (Suc (length pre)) (?s1, ?out1)"
      using upper by (simp only: entityLoopDown_split add_0 option.case)
    also have "\<dots> = entityLoopDown 0 (length pre) (?s2, ?out1 @ [score ?s1 + 50])"
      using coin_step one by simp
    finally show ?thesis .
  qed
  show ?thesis
    apply (rule exI [of _ ?s1], rule exI [of _ ?out1], rule exI [of _ ?s2])
    using upper over coin_step one gone_c whole
    apply simp
    done
qed

theorem coin_after_game_over_witness:
  "update True None 0 doubleHitState =
     Some (doubleHitState\<lparr>playerY := 1027 / 5, playerVelY := 1,
             entities := [doubleHitObstacle\<lparr>ent_x := Fin 125\<rparr>],
             score := 170, gameOver := True, gameTime := 42\<rparr>, [170]) \<and>
   (\<exists>s1 out1 s2.
      entityLoopDown 1 1
        (doubleHitState\<lparr>playerY := 1027 / 5, playerVelY := 1, gameTime := 42\<rparr>, []) =
        Some (s1, out1) \<and>
      gameOver s1 \<and>
      entityStep 0 (s1, out1) = Some (s2, out1 @ [score s1 + 50]) \<and>
      score s2 = score s1 + 50 \<and> gameOver s2)"
proof -
  let ?s = "doubleHitState\<lparr>playerY := 1027 / 5, playerVelY := 1, gameTime := 42\<rparr>"
  have ents: "entities ?s = [] @ doubleHitCoin # [] @ doubleHitObstacle # []"
    by (simp add: doubleHitState_def doubleHitCoin_def doubleHitObstacle_def)
  have hit_ob: "obstacleHit (scrollSpeed ?s) (playerY ?s) doubleHitObstacle"
    by (simp add: doubleHitState_def doubleHitObstacle_def obstacleHit_def advance_def
        overlaps_def truthy_def jssub_def consts_defs)
  have hit_c: "coinHit (scrollSpeed ?s) (playerY ?s) doubleHitCoin"
    by (simp add: doubleHitState_def doubleHitCoin_def coinHit_def advance_def
        overlaps_def truthy_def jssub_def consts_defs)
  have frame: "update True None 0 doubleHitState =
     Some (doubleHitState\<lparr>playerY := 1027 / 5, playerVelY := 1,
             entities := [doubleHitObstacle\<lparr>ent_x := Fin 125\<rparr>],
             score := 170, gameOver := True, gameTime := 42\<rparr>, [170])"
    by (simp add: frame_defs doubleHitState_def doubleHitCoin_def doubleHitObstacle_def)
  from coin_after_game_over [OF ents hit_ob hit_c, of "[]"]
  obtain s1 out1 s2 where
    "entityLoopDown 1 1 (?s, []) = Some (s1, out1)" "gameOver s1"
    "entityStep 0 (s1, out1) = Some (s2, out1 @ [score s1 + 50])"
    "score s2 = score s1 + 50" "gameOver s2"
    by auto
  with frame show ?thesis
    by blast
qed

end
